theory Spec2Isabelle
  imports Complex_Main "HOL-Library.Word"
begin

unbundle bit_operations_syntax

section \<open>Threat assessment (TECHNICAL_SPECIFICATION.md, section 3.1)\<close>

text \<open>
  The \<^verbatim>\<open>ThreatContext\<close> interface and the function
  \<^verbatim>\<open>assessSecurityRequirement\<close>. The two \<^verbatim>\<open>number\<close> fields are
  modelled as reals: the function only compares \<^verbatim>\<open>transactionValue\<close> with
  constants and takes \<^verbatim>\<open>Math.floor(geopoliticalRisk / 3)\<close>. The string unions
  are datatypes, one constructor per literal.
\<close>

datatype UserRiskProfile = Profile_low | Profile_medium | Profile_high

datatype NetworkConditions = Network_normal | Network_hostile

datatype QuantumThreatLevel = Quantum_none | Quantum_suspected | Quantum_confirmed

datatype SecurityLevel =
  Level_minimal | Level_standard | Level_high | Level_quantum_safe | Level_military

record ThreatContext =
  transactionValue :: real
  userRiskProfile :: UserRiskProfile
  networkConditions :: NetworkConditions
  quantumThreatLevel :: QuantumThreatLevel
  geopoliticalRisk :: real

text \<open>
  The final chain of \<^verbatim>\<open>if (riskScore >= n) return ...\<close> statements.
\<close>

definition mapRiskScore :: "int \<Rightarrow> SecurityLevel" where
  "mapRiskScore riskScore =
     (if riskScore \<ge> 8 then Level_military
      else if riskScore \<ge> 6 then Level_quantum_safe
      else if riskScore \<ge> 4 then Level_high
      else if riskScore \<ge> 2 then Level_standard
      else Level_minimal)"

text \<open>
  The body of \<^verbatim>\<open>assessSecurityRequirement\<close>, statement by statement: the local
  \<^verbatim>\<open>riskScore\<close> starts at 0 and is updated in source order (\<open>s1\<close>, \<open>s2\<close>,
  \<open>s3\<close> are its successive values); the \<^verbatim>\<open>switch\<close> on the quantum threat
  level returns from its \<^verbatim>\<open>'confirmed'\<close> case before the geopolitical term is
  added.
\<close>

definition assessSecurityRequirement :: "ThreatContext \<Rightarrow> SecurityLevel" where
  "assessSecurityRequirement ctx =
     (let s0 = (0::int);
          s1 = (if transactionValue ctx > 1000000 then s0 + 3
                else if transactionValue ctx > 100000 then s0 + 2
                else if transactionValue ctx > 10000 then s0 + 1
                else s0);
          s2 = (case userRiskProfile ctx of
                  Profile_high \<Rightarrow> s1 + 3
                | Profile_medium \<Rightarrow> s1 + 1
                | Profile_low \<Rightarrow> s1 + 0);
          s3 = (if networkConditions ctx = Network_hostile then s2 + 2 else s2)
      in case quantumThreatLevel ctx of
           Quantum_confirmed \<Rightarrow> Level_military
         | Quantum_suspected \<Rightarrow> mapRiskScore (s3 + 4 + \<lfloor>geopoliticalRisk ctx / 3\<rfloor>)
         | Quantum_none \<Rightarrow> mapRiskScore (s3 + 0 + \<lfloor>geopoliticalRisk ctx / 3\<rfloor>))"

subsection \<open>The scoring rule as the specification words it\<close>

definition value_points :: "real \<Rightarrow> int" where
  "value_points v =
     (if v > 1000000 then 3 else if v > 100000 then 2 else if v > 10000 then 1 else 0)"

fun profile_points :: "UserRiskProfile \<Rightarrow> int" where
  "profile_points Profile_low = 0"
| "profile_points Profile_medium = 1"
| "profile_points Profile_high = 3"

definition network_points :: "NetworkConditions \<Rightarrow> int" where
  "network_points n = (if n = Network_hostile then 2 else 0)"

definition quantum_points :: "QuantumThreatLevel \<Rightarrow> int" where
  "quantum_points t = (if t = Quantum_suspected then 4 else 0)"

definition spec_risk_score :: "ThreatContext \<Rightarrow> int" where
  "spec_risk_score ctx =
     value_points (transactionValue ctx) + profile_points (userRiskProfile ctx)
     + network_points (networkConditions ctx) + quantum_points (quantumThreatLevel ctx)
     + \<lfloor>geopoliticalRisk ctx / 3\<rfloor>"

definition spec_assess :: "ThreatContext \<Rightarrow> SecurityLevel" where
  "spec_assess ctx =
     (if quantumThreatLevel ctx = Quantum_confirmed then Level_military
      else let score = spec_risk_score ctx in
        if score \<ge> 8 then Level_military
        else if score \<ge> 6 then Level_quantum_safe
        else if score \<ge> 4 then Level_high
        else if score \<ge> 2 then Level_standard
        else Level_minimal)"

subsection \<open>The orders the monotonicity statement refers to\<close>

fun level_rank :: "SecurityLevel \<Rightarrow> nat" where
  "level_rank Level_minimal = 0"
| "level_rank Level_standard = 1"
| "level_rank Level_high = 2"
| "level_rank Level_quantum_safe = 3"
| "level_rank Level_military = 4"

fun profile_rank :: "UserRiskProfile \<Rightarrow> nat" where
  "profile_rank Profile_low = 0"
| "profile_rank Profile_medium = 1"
| "profile_rank Profile_high = 2"

fun network_rank :: "NetworkConditions \<Rightarrow> nat" where
  "network_rank Network_normal = 0"
| "network_rank Network_hostile = 1"

fun quantum_rank :: "QuantumThreatLevel \<Rightarrow> nat" where
  "quantum_rank Quantum_none = 0"
| "quantum_rank Quantum_suspected = 1"
| "quantum_rank Quantum_confirmed = 2"

section \<open>The simulated primitives (lib/ethereum-utils.ts)\<close>

text \<open>
  The runnable code draws every key and signature from \<^verbatim>\<open>Math.random()\<close>.
  The random source is explicit state here: a sequence of draws, of which
  \<^verbatim>\<open>Math.random()\<close> takes the first and leaves the rest. Each function takes the
  source and returns the unused rest with its result. A draw is a real number; the
  runtime returns doubles in \<open>[0, 1)\<close>, and the only arithmetic done on a draw whose
  result is kept, the product with 16, is exact on doubles.

  Timers (\<^verbatim>\<open>setTimeout\<close>) and clock readings (\<^verbatim>\<open>performance.now()\<close>)
  are not modelled; the draws that compute a delay are consumed, in source order, and
  the delay itself is dropped.
\<close>

type_synonym rng = "nat \<Rightarrow> real"

definition math_random :: "rng \<Rightarrow> real \<times> rng" where
  "math_random g = (g 0, \<lambda>n. g (Suc n))"

text \<open>
  \<^verbatim>\<open>chars[Math.floor(Math.random() * chars.length)]\<close>, appended to a string: an index
  outside the string reads \<^verbatim>\<open>undefined\<close>, which \<^verbatim>\<open>+=\<close> appends as text.
\<close>

definition chars :: string where
  "chars = ''0123456789abcdef''"

definition random_char :: "real \<Rightarrow> string" where
  "random_char r =
     (let i = \<lfloor>r * real (length chars)\<rfloor>
      in if 0 \<le> i \<and> i < int (length chars) then [chars ! nat i] else ''undefined'')"

text \<open>
  The loop of \<^verbatim>\<open>generateRandomHex\<close>: \<open>i\<close> counts up while \<open>i < len\<close>; \<open>len\<close>
  is a JavaScript number, not always an integer at the call sites.
\<close>

function generateRandomHex_loop :: "nat \<Rightarrow> real \<Rightarrow> string \<Rightarrow> rng \<Rightarrow> string \<times> rng" where
  "generateRandomHex_loop i len result g =
     (if real i < len
      then generateRandomHex_loop (i + 1) len
             (result @ random_char (fst (math_random g))) (snd (math_random g))
      else (result, g))"
  by pat_completeness auto
termination
proof (relation "measure (\<lambda>(i, len, result, g). nat \<lceil>len\<rceil> - i)")
  show "wf (measure (\<lambda>(i, len, result, g). nat \<lceil>len\<rceil> - i))"
    by simp
next
  fix i :: nat and len :: real and result :: string and g :: rng
  assume "real i < len"
  then have "i < nat \<lceil>len\<rceil>"
    by linarith
  then show "((i + 1, len, result @ random_char (fst (math_random g)), snd (math_random g)),
              (i, len, result, g)) \<in> measure (\<lambda>(i, len, result, g). nat \<lceil>len\<rceil> - i)"
    by simp
qed

declare generateRandomHex_loop.simps [simp del]

text \<open>
  A length that is not a number (\<^verbatim>\<open>undefined * 2\<close> is \<^verbatim>\<open>NaN\<close>) is \<open>None\<close>:
  \<^verbatim>\<open>i < NaN\<close> is false and the loop body never runs.
\<close>

definition generateRandomHex :: "real option \<Rightarrow> rng \<Rightarrow> string \<times> rng" where
  "generateRandomHex len g =
     (case len of None \<Rightarrow> ('''', g) | Some l \<Rightarrow> generateRandomHex_loop 0 l '''' g)"

text \<open>
  Indexing an object literal with an arbitrary string: the literal's own properties
  first, then the members every object inherits from \<^verbatim>\<open>Object.prototype\<close> (functions,
  and the prototype itself: all truthy, none a number, none with the properties of a
  table entry), and \<^verbatim>\<open>undefined\<close> for any other key.
\<close>

datatype 'a js_property = Own 'a | Inherited | Undefined

definition object_prototype_keys :: "string list" where
  "object_prototype_keys =
     [''constructor'', ''__proto__'', ''hasOwnProperty'', ''isPrototypeOf'',
      ''propertyIsEnumerable'', ''toLocaleString'', ''toString'', ''valueOf'',
      ''__defineGetter__'', ''__defineSetter__'', ''__lookupGetter__'', ''__lookupSetter__'']"

definition js_get :: "(string \<times> 'a) list \<Rightarrow> string \<Rightarrow> 'a js_property" where
  "js_get obj key =
     (case map_of obj key of
        Some v \<Rightarrow> Own v
      | None \<Rightarrow> if key \<in> set object_prototype_keys then Inherited else Undefined)"

record KeySpec =
  specPublicKeySize :: real
  specPrivateKeySize :: real
  specSecurityLevel :: string

definition keySpecs :: "(string \<times> KeySpec) list" where
  "keySpecs =
     [(''dilithium2'', \<lparr>specPublicKeySize = 1312, specPrivateKeySize = 2528,
                        specSecurityLevel = ''Level 1''\<rparr>),
      (''dilithium3'', \<lparr>specPublicKeySize = 1952, specPrivateKeySize = 4000,
                        specSecurityLevel = ''Level 3''\<rparr>),
      (''dilithium5'', \<lparr>specPublicKeySize = 2592, specPrivateKeySize = 4864,
                        specSecurityLevel = ''Level 5''\<rparr>)]"

text \<open>
  The object every key generator returns. A size or level read from an inherited
  member is \<^verbatim>\<open>undefined\<close>, here \<open>None\<close>.
\<close>

record KeyPair =
  publicKey :: string
  privateKey :: string
  publicKeySize :: "real option"
  privateKeySize :: "real option"
  securityLevel :: "string option"
  algorithm :: string

text \<open>
  \<^verbatim>\<open>keySpecs[variant] || keySpecs.dilithium3\<close>: an own entry, else the inherited
  member (truthy, so it is kept: \<open>None\<close> below), else the fallback.
\<close>

definition selectKeySpec :: "string \<Rightarrow> KeySpec option" where
  "selectKeySpec variant =
     (case js_get keySpecs variant of
        Own s \<Rightarrow> Some s
      | Inherited \<Rightarrow> None
      | Undefined \<Rightarrow> Some \<lparr>specPublicKeySize = 1952, specPrivateKeySize = 4000,
                             specSecurityLevel = ''Level 3''\<rparr>)"

definition generateDilithiumKeys :: "string \<Rightarrow> rng \<Rightarrow> KeyPair \<times> rng" where
  "generateDilithiumKeys variant g0 =
     (let g1 = snd (math_random g0);
          spec = selectKeySpec variant;
          (pk, g2) = generateRandomHex (map_option (\<lambda>s. specPublicKeySize s * 2) spec) g1;
          (sk, g3) = generateRandomHex (map_option (\<lambda>s. specPrivateKeySize s * 2) spec) g2
      in (\<lparr>publicKey = pk, privateKey = sk,
           publicKeySize = map_option specPublicKeySize spec,
           privateKeySize = map_option specPrivateKeySize spec,
           securityLevel = map_option specSecurityLevel spec,
           algorithm = variant\<rparr>, g3))"

text \<open>
  The template literal \<^verbatim>\<open>`rsa${keySize}`\<close> prints the key size in decimal (an
  integer below \<open>10\<^sup>2\<^sup>1\<close>, as at the only call site, 2048).
\<close>

function decimal :: "nat \<Rightarrow> string" where
  "decimal n = (if n < 10 then [''0123456789'' ! n] else decimal (n div 10) @ [''0123456789'' ! (n mod 10)])"
  by pat_completeness auto
termination
  by (relation "measure id") auto

declare decimal.simps [simp del]

definition generateRSAKeys :: "nat \<Rightarrow> rng \<Rightarrow> KeyPair \<times> rng" where
  "generateRSAKeys keySize g0 =
     (let g1 = snd (math_random g0);
          publicKeySize = real keySize / 8;
          privateKeySize = (real keySize / 8) * 5;
          (pk, g2) = generateRandomHex (Some (publicKeySize * 2)) g1;
          (sk, g3) = generateRandomHex (Some (privateKeySize * 2)) g2
      in (\<lparr>publicKey = pk, privateKey = sk,
           publicKeySize = Some publicKeySize,
           privateKeySize = Some privateKeySize,
           securityLevel = Some (if keySize = 2048 then ''112-bit'' else ''128-bit''),
           algorithm = ''rsa'' @ decimal keySize\<rparr>, g3))"

definition generateECDSAKeys :: "rng \<Rightarrow> KeyPair \<times> rng" where
  "generateECDSAKeys g0 =
     (let g1 = snd (math_random g0);
          publicKeySize = 64;
          privateKeySize = 32;
          (pk, g2) = generateRandomHex (Some (publicKeySize * 2)) g1;
          (sk, g3) = generateRandomHex (Some (privateKeySize * 2)) g2
      in (\<lparr>publicKey = pk, privateKey = sk,
           publicKeySize = Some publicKeySize,
           privateKeySize = Some privateKeySize,
           securityLevel = Some ''128-bit'',
           algorithm = ''ecdsa''\<rparr>, g3))"

text \<open>
  The object \<^verbatim>\<open>signMessage\<close> returns; \<^verbatim>\<open>generateHybridSignature\<close> returns
  either such an object or, in standard mode, one without a \<^verbatim>\<open>publicKey\<close>
  property (\<open>None\<close>). A \<^verbatim>\<open>signatureSize\<close> that is not a number is \<open>None\<close>.
  The properties \<^verbatim>\<open>publicKey\<close> and \<^verbatim>\<open>algorithm\<close> are the fields
  \<open>signerPublicKey\<close> and \<open>signatureAlgorithm\<close>, the plain names being those of the
  key pair's fields.
\<close>

record SignatureResult =
  signature :: string
  signatureSize :: "real option"
  signerPublicKey :: "string option"
  signatureAlgorithm :: string

definition signatureSizes :: "(string \<times> real) list" where
  "signatureSizes = [(''dilithium3'', 3293), (''rsa2048'', 256), (''ecdsa'', 64)]"

text \<open>
  \<^verbatim>\<open>signMessage\<close>: building the \<^verbatim>\<open>signingTimes\<close> literal takes three draws;
  \<^verbatim>\<open>signatureSizes[algorithm] || 256\<close> keeps an own (non-zero) size or an
  inherited member and falls back to 256 otherwise; the message is not read.
\<close>

definition signMessage :: "string \<Rightarrow> string \<Rightarrow> rng \<Rightarrow> SignatureResult \<times> rng" where
  "signMessage message algo g0 =
     (let g1 = snd (math_random g0);
          g2 = snd (math_random g1);
          g3 = snd (math_random g2);
          size = (case js_get signatureSizes algo of
                    Own n \<Rightarrow> Some n
                  | Inherited \<Rightarrow> None
                  | Undefined \<Rightarrow> Some 256);
          (sig, g4) = generateRandomHex (map_option (\<lambda>n. n * 2) size) g3;
          (keys, g5) = (if algo = ''dilithium3'' then generateDilithiumKeys ''dilithium3'' g4
                        else if algo = ''rsa2048'' then generateRSAKeys 2048 g4
                        else generateECDSAKeys g4)
      in (\<lparr>signature = sig, signatureSize = size,
           signerPublicKey = Some (publicKey keys), signatureAlgorithm = algo\<rparr>, g5))"

text \<open>
  \<^verbatim>\<open>verifySignature\<close> is an async function: its promise either resolves with a
  value (\<open>Inr\<close>) or rejects with an error (\<open>Inl\<close>). Building the
  \<^verbatim>\<open>verificationTimes\<close> literal takes three draws; none of the four arguments is
  read except \<^verbatim>\<open>algorithm\<close>, which selects the delay.
\<close>

datatype js_error = Error string

definition verifySignature ::
  "string \<Rightarrow> string \<Rightarrow> string \<Rightarrow> string \<Rightarrow> rng \<Rightarrow> (js_error + bool) \<times> rng" where
  "verifySignature message sig pubkey algo g0 =
     (let g1 = snd (math_random g0);
          g2 = snd (math_random g1);
          g3 = snd (math_random g2)
      in (Inr True, g3))"

text \<open>
  \<^verbatim>\<open>generateHybridSignature\<close>; its second parameter has the type
  \<^verbatim>\<open>"standard" | "quantum-safe"\<close>.
\<close>

datatype HybridSecurityLevel = Hybrid_standard | Hybrid_quantum_safe

definition generateHybridSignature ::
  "string \<Rightarrow> HybridSecurityLevel \<Rightarrow> rng \<Rightarrow> SignatureResult \<times> rng" where
  "generateHybridSignature message level g0 =
     (if level = Hybrid_standard then
        (let (ecdsaSig, g1) = signMessage message ''ecdsa'' g0;
             (dilithiumProof, g2) = generateRandomHex (Some 128) g1
         in (\<lparr>signature = signature ecdsaSig @ dilithiumProof,
              signatureSize = map_option (\<lambda>n. n + 64) (signatureSize ecdsaSig),
              signerPublicKey = None,
              signatureAlgorithm = ''hybrid-standard''\<rparr>, g2))
      else signMessage message ''dilithium3'' g0)"

subsection \<open>Reading the random source\<close>

text \<open>
  Two derived notions, used to say what the generators return: the text that \<open>n\<close>
  successive draws produce, and the source left after \<open>n\<close> draws; the number of
  draws one key generation takes; and three fixed sources that serve as concrete inputs.
\<close>

definition draws_text :: "rng \<Rightarrow> nat \<Rightarrow> string" where
  "draws_text g n = concat (map (\<lambda>k. random_char (g k)) [0..<n])"

definition skip_draws :: "nat \<Rightarrow> rng \<Rightarrow> rng" where
  "skip_draws n g = (\<lambda>k. g (k + n))"

definition keygen_draws :: "string \<Rightarrow> nat" where
  "keygen_draws variant =
     (case selectKeySpec variant of
        None \<Rightarrow> 1
      | Some s \<Rightarrow> 1 + nat \<lceil>specPublicKeySize s * 2\<rceil> + nat \<lceil>specPrivateKeySize s * 2\<rceil>)"

definition zero_draws :: rng where
  "zero_draws = (\<lambda>n. 0)"

definition half_draws :: rng where
  "half_draws = (\<lambda>n. 1 / 2)"

definition late_half_draws :: rng where
  "late_half_draws = (\<lambda>n. if n < 20000 then 0 else 1 / 2)"

section \<open>The documented lattice signature (TECHNICAL_SPECIFICATION.md, section 2)\<close>

text \<open>
  \<^verbatim>\<open>dilithiumSign\<close> and \<^verbatim>\<open>dilithiumVerify\<close> are given in full; the functions
  they call (hashing, sampling, polynomial arithmetic, hints) are defined nowhere in
  the repository and are parameters here, collected in one record and taken to return
  normally. A polynomial is a list of integer coefficients, a byte string a list of
  8-bit words; the type of a hint vector is left open. The fields of the parameter set
  and of the keys carry a prefix (\<open>paramK\<close> for \<^verbatim>\<open>params.k\<close>, \<open>sk_rho\<close> and
  \<open>pk_rho\<close> for the two \<^verbatim>\<open>rho\<close>), \<^verbatim>\<open>encode\<close> is \<open>encode_vector\<close> on one
  argument and \<open>encode_key\<close> on two, and the optional third argument of
  \<^verbatim>\<open>shake256\<close> is an option.
\<close>

type_synonym Polynomial = "int list"

type_synonym bytes = "8 word list"

record DilithiumParams =
  paramK :: nat
  paramL :: nat
  paramEta :: nat
  paramGamma1 :: int
  paramGamma2 :: int
  paramBeta :: int
  paramTau :: nat
  paramOmega :: nat
  paramD :: nat

record DilithiumPrivateKey =
  sk_rho :: bytes
  sk_K :: bytes
  sk_tr :: bytes
  sk_s1 :: "Polynomial list"
  sk_s2 :: "Polynomial list"
  sk_t0 :: "Polynomial list"
  sk_level :: nat

record DilithiumPublicKey =
  pk_rho :: bytes
  pk_t1 :: "Polynomial list"
  pk_level :: nat

record 'h DilithiumSignature =
  c_tilde :: bytes
  sig_z :: "Polynomial list"
  sig_h :: 'h

record 'h LatticeOps =
  getParams :: "nat \<Rightarrow> DilithiumParams"
  shake256 :: "bytes \<Rightarrow> nat \<Rightarrow> nat option \<Rightarrow> bytes"
  concat_bytes :: "bytes \<Rightarrow> bytes \<Rightarrow> bytes"
  encode_vector :: "Polynomial list \<Rightarrow> bytes"
  encode_key :: "bytes \<Rightarrow> Polynomial list \<Rightarrow> bytes"
  expandA :: "bytes \<Rightarrow> nat \<Rightarrow> nat \<Rightarrow> Polynomial list list"
  sampleGamma1 :: "bytes \<Rightarrow> int \<Rightarrow> nat \<Rightarrow> Polynomial list"
  sampleInBall :: "bytes \<Rightarrow> nat \<Rightarrow> Polynomial"
  matrixVectorMul :: "Polynomial list list \<Rightarrow> Polynomial list \<Rightarrow> Polynomial list"
  polynomialVectorMul :: "Polynomial \<Rightarrow> Polynomial list \<Rightarrow> Polynomial list"
  vectorAdd :: "Polynomial list \<Rightarrow> Polynomial list \<Rightarrow> Polynomial list"
  vectorSub :: "Polynomial list \<Rightarrow> Polynomial list \<Rightarrow> Polynomial list"
  vectorNeg :: "Polynomial list \<Rightarrow> Polynomial list"
  vectorScale :: "Polynomial list \<Rightarrow> int \<Rightarrow> Polynomial list"
  vectorInfinityNorm :: "Polynomial list \<Rightarrow> int"
  highBits :: "Polynomial list \<Rightarrow> int \<Rightarrow> Polynomial list"
  makeHint :: "Polynomial list \<Rightarrow> Polynomial list \<Rightarrow> int \<Rightarrow> 'h"
  useHint :: "'h \<Rightarrow> Polynomial list \<Rightarrow> int \<Rightarrow> Polynomial list"
  vectorWeight :: "'h \<Rightarrow> nat"
  constantTimeEqual :: "bytes \<Rightarrow> bytes \<Rightarrow> bool"

definition maxAttempts :: nat where
  "maxAttempts = 1000"

text \<open>
  One pass through the body of the \<^verbatim>\<open>while\<close> loop of \<^verbatim>\<open>dilithiumSign\<close>, for
  a given value of \<^verbatim>\<open>attempt\<close>: \<open>None\<close> when the pass ends in one of the two
  \<^verbatim>\<open>attempt++; continue\<close> exits, the signature when it reaches \<^verbatim>\<open>return\<close>.
\<close>

definition signAttempt ::
  "'h LatticeOps \<Rightarrow> DilithiumParams \<Rightarrow> DilithiumPrivateKey \<Rightarrow> bytes \<Rightarrow> nat
   \<Rightarrow> 'h DilithiumSignature option" where
  "signAttempt ops params sk mu attempt =
     (let rhoPrimeExtended =
            shake256 ops (concat_bytes ops (sk_K sk) mu) (64 * paramL params) (Some attempt);
          y = sampleGamma1 ops rhoPrimeExtended (paramGamma1 params) (paramL params);
          A = expandA ops (sk_rho sk) (paramK params) (paramL params);
          w = matrixVectorMul ops A y;
          w1 = highBits ops w (paramGamma2 params);
          ctilde = shake256 ops (concat_bytes ops mu (encode_vector ops w1)) 32 None;
          c = sampleInBall ops ctilde (paramTau params);
          cs1 = polynomialVectorMul ops c (sk_s1 sk);
          z = vectorAdd ops y cs1
      in if vectorInfinityNorm ops z \<ge> paramGamma1 params - paramBeta params then None
         else
           (let cs2 = polynomialVectorMul ops c (sk_s2 sk);
                ct0 = polynomialVectorMul ops c (sk_t0 sk);
                w_minus_cs2 = vectorSub ops w cs2;
                h = makeHint ops (vectorNeg ops ct0) w_minus_cs2 (paramGamma2 params)
            in if vectorWeight ops h > paramOmega params then None
               else Some \<lparr>c_tilde = ctilde, sig_z = z, sig_h = h\<rparr>))"

text \<open>
  The loop itself, from a given value of \<^verbatim>\<open>attempt\<close>. It returns the final value
  of \<^verbatim>\<open>attempt\<close> with the outcome: the signature (\<open>Inr\<close>), or the error thrown
  after the loop (\<open>Inl\<close>).
\<close>

function dilithiumSign_loop ::
  "'h LatticeOps \<Rightarrow> DilithiumParams \<Rightarrow> DilithiumPrivateKey \<Rightarrow> bytes \<Rightarrow> nat
   \<Rightarrow> nat \<times> (js_error + 'h DilithiumSignature)" where
  "dilithiumSign_loop ops params sk mu attempt =
     (if attempt < maxAttempts then
        (case signAttempt ops params sk mu attempt of
           None \<Rightarrow> dilithiumSign_loop ops params sk mu (attempt + 1)
         | Some s \<Rightarrow> (attempt, Inr s))
      else (attempt, Inl (Error ''Signature generation failed after maximum attempts'')))"
  by pat_completeness auto
termination
  by (relation "measure (\<lambda>(ops, params, sk, mu, attempt). maxAttempts - attempt)") auto

declare dilithiumSign_loop.simps [simp del]

definition dilithiumSign ::
  "'h LatticeOps \<Rightarrow> bytes \<Rightarrow> DilithiumPrivateKey \<Rightarrow> js_error + 'h DilithiumSignature" where
  "dilithiumSign ops message sk =
     (let params = getParams ops (sk_level sk);
          mu = shake256 ops (concat_bytes ops (sk_tr sk) message) 32 None
      in snd (dilithiumSign_loop ops params sk mu 0))"

definition dilithiumVerify ::
  "'h LatticeOps \<Rightarrow> bytes \<Rightarrow> 'h DilithiumSignature \<Rightarrow> DilithiumPublicKey \<Rightarrow> bool" where
  "dilithiumVerify ops message sg pk =
     (let params = getParams ops (pk_level pk)
      in if vectorInfinityNorm ops (sig_z sg) \<ge> paramGamma1 params - paramBeta params
         then False
         else
           (let pk_encoded = encode_key ops (pk_rho pk) (pk_t1 pk);
                tr = shake256 ops pk_encoded 32 None;
                mu = shake256 ops (concat_bytes ops tr message) 32 None;
                c = sampleInBall ops (c_tilde sg) (paramTau params);
                A = expandA ops (pk_rho pk) (paramK params) (paramL params);
                Az = matrixVectorMul ops A (sig_z sg);
                ct1_scaled = vectorScale ops (polynomialVectorMul ops c (pk_t1 pk))
                               (2 ^ paramD params);
                w_approx = vectorSub ops Az ct1_scaled;
                w1 = useHint ops (sig_h sg) w_approx (paramGamma2 params);
                c_tilde_prime = shake256 ops (concat_bytes ops mu (encode_vector ops w1)) 32 None
            in constantTimeEqual ops (c_tilde sg) c_tilde_prime))"

subsection \<open>A small instance of the helper functions\<close>

text \<open>
  One concrete choice of the helpers, to run the loop on: one polynomial of one
  coefficient, the mask \<open>y\<close> equal to \<open>gamma1\<close> minus the attempt number, a zero
  challenge product, so that the norm check rejects attempts 0, 1 and 2 and accepts
  attempt 3.
\<close>

definition demo_params :: DilithiumParams where
  "demo_params = \<lparr>paramK = 1, paramL = 1, paramEta = 2, paramGamma1 = 10, paramGamma2 = 5,
                   paramBeta = 2, paramTau = 1, paramOmega = 3, paramD = 13\<rparr>"

definition demo_ops :: "unit LatticeOps" where
  "demo_ops =
     \<lparr>getParams = (\<lambda>level. demo_params),
      shake256 = (\<lambda>input outlen counter. case counter of None \<Rightarrow> [] | Some n \<Rightarrow> replicate n 0),
      concat_bytes = (\<lambda>a b. a @ b),
      encode_vector = (\<lambda>v. []),
      encode_key = (\<lambda>rho t1. rho),
      expandA = (\<lambda>rho k l. [[[1]]]),
      sampleGamma1 = (\<lambda>seed gamma1 l. [[gamma1 - int (length seed)]]),
      sampleInBall = (\<lambda>seed tau. [0]),
      matrixVectorMul = (\<lambda>A v. v),
      polynomialVectorMul = (\<lambda>c v. [[0]]),
      vectorAdd = (\<lambda>a b. map2 (map2 (+)) a b),
      vectorSub = (\<lambda>a b. map2 (map2 (-)) a b),
      vectorNeg = map (map uminus),
      vectorScale = (\<lambda>v s. map (map (\<lambda>x. x * s)) v),
      vectorInfinityNorm = (\<lambda>v. fold (\<lambda>p m. fold (\<lambda>x m. max \<bar>x\<bar> m) p m) v 0),
      highBits = (\<lambda>v gamma2. map (map (\<lambda>x. x div (2 * gamma2))) v),
      makeHint = (\<lambda>a b gamma2. ()),
      useHint = (\<lambda>h v gamma2. map (map (\<lambda>x. x div (2 * gamma2))) v),
      vectorWeight = (\<lambda>h. 0),
      constantTimeEqual = (\<lambda>a b. a = b)\<rparr>"

definition demo_key :: DilithiumPrivateKey where
  "demo_key = \<lparr>sk_rho = [], sk_K = [], sk_tr = [], sk_s1 = [[0]], sk_s2 = [[0]],
                sk_t0 = [[0]], sk_level = 2\<rparr>"

definition demo_public_key :: DilithiumPublicKey where
  "demo_public_key = \<lparr>pk_rho = [], pk_t1 = [[0]], pk_level = 2\<rparr>"

section \<open>Coefficient compression (TECHNICAL_SPECIFICATION.md, section 4.1)\<close>

text \<open>
  \<^verbatim>\<open>compressPolynomial\<close> and \<^verbatim>\<open>decompressPolynomial\<close>. Coefficients and
  quantised values are integers and the divisions are exact here; this is what the
  double-precision arithmetic of the source computes as long as the products stay below
  \<open>2\<^sup>5\<^sup>3\<close> and the shifts below 31 bits, that is for coefficients in \<open>[0, q)\<close> and
  \<open>bits \<le> 30\<close> (the exact quotient by the odd \<open>q\<close> is at least \<open>1 / (2 q)\<close> away
  from every half-integer, more than the rounding error of a quotient below
  \<open>2\<^sup>3\<^sup>0\<close>, so \<^verbatim>\<open>Math.round\<close> sees the same side of the half). The constant \<^verbatim>\<open>DILITHIUM_Q\<close> is the modulus \<open>q = 8380417\<close> of
  section 1.1.
\<close>

definition DILITHIUM_Q :: int where
  "DILITHIUM_Q = 8380417"

text \<open>\<^verbatim>\<open>Math.round\<close>: the nearest integer, a half rounded up.\<close>

definition math_round :: "real \<Rightarrow> int" where
  "math_round x = \<lfloor>x + 1 / 2\<rfloor>"

text \<open>The remainder operator \<^verbatim>\<open>%\<close>: the sign follows the dividend.\<close>

definition js_remainder :: "int \<Rightarrow> int \<Rightarrow> int" where
  "js_remainder a b = sgn a * (\<bar>a\<bar> mod \<bar>b\<bar>)"

text \<open>
  \<^verbatim>\<open>Math.round((poly[i] * range) / DILITHIUM_Q) % range\<close>; a coefficient that is
  not there (\<^verbatim>\<open>poly[i]\<close> is \<^verbatim>\<open>undefined\<close>) gives \<^verbatim>\<open>NaN\<close>, none of whose
  bits is set under \<^verbatim>\<open>>>\<close>, like 0.
\<close>

definition quantize :: "Polynomial \<Rightarrow> nat \<Rightarrow> nat \<Rightarrow> int" where
  "quantize poly bits i =
     (let range = 2 ^ bits
      in if i < length poly
         then js_remainder (math_round (real_of_int (poly ! i * range) / real_of_int DILITHIUM_Q)) range
         else 0)"

text \<open>
  The body of the inner loop of \<^verbatim>\<open>compressPolynomial\<close>, on the state
  \<^verbatim>\<open>(compressed, bitOffset)\<close>; a write past the end of a typed array is ignored,
  as is a list update past the end.
\<close>

fun packBit :: "int \<Rightarrow> nat \<Rightarrow> bytes \<times> nat \<Rightarrow> bytes \<times> nat" where
  "packBit quantized b (compressed, bitOffset) =
     (let byteIndex = bitOffset div 8;
          bitIndex = bitOffset mod 8
      in (if bit quantized b
          then compressed[byteIndex := (compressed ! byteIndex) OR push_bit bitIndex 1]
          else compressed,
          bitOffset + 1))"

fun packCoefficient :: "Polynomial \<Rightarrow> nat \<Rightarrow> nat \<Rightarrow> bytes \<times> nat \<Rightarrow> bytes \<times> nat" where
  "packCoefficient poly bits i (compressed, bitOffset) =
     fold (packBit (quantize poly bits i)) [0..<bits] (compressed, bitOffset)"

definition compressPolynomial :: "Polynomial \<Rightarrow> nat \<Rightarrow> bytes" where
  "compressPolynomial poly bits =
     (let compressed = replicate (nat \<lceil>real (256 * bits) / 8\<rceil>) 0
      in fst (fold (packCoefficient poly bits) [0..<256] (compressed, 0)))"

text \<open>
  The body of the inner loop of \<^verbatim>\<open>decompressPolynomial\<close>, on the state
  \<^verbatim>\<open>(value, bitOffset)\<close>; a byte read past the end of the array has no bit set.
\<close>

fun unpackBit :: "bytes \<Rightarrow> nat \<Rightarrow> int \<times> nat \<Rightarrow> int \<times> nat" where
  "unpackBit compressed b (val, bitOffset) =
     (let byteIndex = bitOffset div 8;
          bitIndex = bitOffset mod 8
      in (if byteIndex < length compressed \<and> bit (compressed ! byteIndex) bitIndex
          then val OR push_bit b 1
          else val,
          bitOffset + 1))"

text \<open>
  The body of the outer loop, on the state \<^verbatim>\<open>(poly, bitOffset)\<close>: the array of 256
  slots is filled slot by slot.
\<close>

fun unpackCoefficient :: "bytes \<Rightarrow> nat \<Rightarrow> nat \<Rightarrow> Polynomial \<times> nat \<Rightarrow> Polynomial \<times> nat" where
  "unpackCoefficient compressed bits i (poly, bitOffset) =
     (let range = 2 ^ bits;
          (val, bitOffset') = fold (unpackBit compressed) [0..<bits] (0, bitOffset)
      in (poly[i := math_round (real_of_int (val * DILITHIUM_Q) / real_of_int range)], bitOffset'))"

definition decompressPolynomial :: "bytes \<Rightarrow> nat \<Rightarrow> Polynomial" where
  "decompressPolynomial compressed bits =
     fst (fold (unpackCoefficient compressed bits) [0..<256] (replicate 256 0, 0))"

text \<open>
  The distance of two coefficients around the cycle of residues modulo \<open>q\<close>, and the
  view of a byte array as a sequence of bits that both loops use.
\<close>

definition cyclic_distance :: "int \<Rightarrow> int \<Rightarrow> int" where
  "cyclic_distance x y = min \<bar>x - y\<bar> (DILITHIUM_Q - \<bar>x - y\<bar>)"

definition stream_bit :: "bytes \<Rightarrow> nat \<Rightarrow> bool" where
  "stream_bit compressed off =
     (off div 8 < length compressed \<and> bit (compressed ! (off div 8)) (off mod 8))"

text \<open>
  The value that the inner loop of \<^verbatim>\<open>decompressPolynomial\<close> reads for
  coefficient \<open>i\<close>.
\<close>

definition unpacked_value :: "bytes \<Rightarrow> nat \<Rightarrow> nat \<Rightarrow> int" where
  "unpacked_value c bits i = fst (fold (unpackBit c) [0..<bits] (0, i * bits))"

section \<open>Properties of the threat assessment\<close>

lemma mapRiskScore_mono:
  "a \<le> b \<Longrightarrow> level_rank (mapRiskScore a) \<le> level_rank (mapRiskScore b)"
  by (simp add: mapRiskScore_def)

lemma level_rank_le_military: "level_rank l \<le> 4"
  by (cases l) simp_all

lemma value_points_mono: "v \<le> v' \<Longrightarrow> value_points v \<le> value_points v'"
  by (simp add: value_points_def)

lemma profile_points_mono:
  "profile_rank p \<le> profile_rank p' \<Longrightarrow> profile_points p \<le> profile_points p'"
  by (cases p; cases p') simp_all

lemma network_points_mono:
  "network_rank n \<le> network_rank n' \<Longrightarrow> network_points n \<le> network_points n'"
  by (cases n; cases n') (simp_all add: network_points_def)

lemma assess_unfold:
  "assessSecurityRequirement ctx =
     (if quantumThreatLevel ctx = Quantum_confirmed then Level_military
      else mapRiskScore (spec_risk_score ctx))"
  by (cases "userRiskProfile ctx"; cases "quantumThreatLevel ctx")
     (simp_all add: assessSecurityRequirement_def spec_risk_score_def value_points_def
        network_points_def quantum_points_def Let_def)

text \<open>
  Componentwise monotonicity: raising any of the five inputs (none to be lowered) never
  lowers the returned level.
\<close>

lemma assess_mono_all:
  assumes "transactionValue c \<le> transactionValue c'"
    and "profile_rank (userRiskProfile c) \<le> profile_rank (userRiskProfile c')"
    and "network_rank (networkConditions c) \<le> network_rank (networkConditions c')"
    and "quantum_rank (quantumThreatLevel c) \<le> quantum_rank (quantumThreatLevel c')"
    and "geopoliticalRisk c \<le> geopoliticalRisk c'"
  shows "level_rank (assessSecurityRequirement c) \<le> level_rank (assessSecurityRequirement c')"
proof (cases "quantumThreatLevel c' = Quantum_confirmed")
  case True
  then show ?thesis
    by (simp add: assess_unfold level_rank_le_military)
next
  case False
  with assms(4) have nc: "quantumThreatLevel c \<noteq> Quantum_confirmed"
    by (cases "quantumThreatLevel c"; cases "quantumThreatLevel c'") simp_all
  have q: "quantum_points (quantumThreatLevel c) \<le> quantum_points (quantumThreatLevel c')"
    using assms(4) False
    by (cases "quantumThreatLevel c"; cases "quantumThreatLevel c'")
       (simp_all add: quantum_points_def)
  have g: "\<lfloor>geopoliticalRisk c / 3\<rfloor> \<le> \<lfloor>geopoliticalRisk c' / 3\<rfloor>"
    using assms(5) by (intro floor_mono) simp
  have "spec_risk_score c \<le> spec_risk_score c'"
    unfolding spec_risk_score_def
    using value_points_mono [OF assms(1)] profile_points_mono [OF assms(2)]
      network_points_mono [OF assms(3)] q g
    by linarith
  then show ?thesis
    using False nc by (simp add: assess_unfold mapRiskScore_mono)
qed

text \<open>
  Claim C3. For every threat context, \<^verbatim>\<open>assessSecurityRequirement\<close> returns
  \<^verbatim>\<open>military\<close> at once when the quantum threat level is confirmed, whatever the
  other fields; otherwise it returns the level that the additive score selects: one of
  3, 2, 1 or 0 points for the highest transaction-value threshold exceeded (1000000,
  100000, 10000), 0, 1 or 3 points for a low, medium or high user profile, 2 points for a
  hostile network, 4 points for a suspected quantum threat and the floor of a third of
  the geopolitical risk; a score of at least 8 gives military, at least 6 quantum-safe,
  at least 4 high, at least 2 standard, anything lower minimal.
\<close>

theorem assess_refines_spec:
  "assessSecurityRequirement ctx = spec_assess ctx"
  by (simp add: assess_unfold spec_assess_def mapRiskScore_def Let_def)

text \<open>
  Claim C4. \<^verbatim>\<open>assessSecurityRequirement\<close> is a total function of the threat
  context (its body has no failing branch and no loop), and it is monotone in each
  input taken alone, the other four held fixed: a larger transaction value, a riskier
  user profile (low, medium, high), a hostile instead of a normal network, a higher
  quantum threat level (none, suspected, confirmed) or a larger geopolitical risk never
  gives a lower security level in the order minimal, standard, high, quantum-safe,
  military.
\<close>

theorem assess_monotone_each_input:
  "(v \<le> v' \<longrightarrow>
      level_rank (assessSecurityRequirement (ctx\<lparr>transactionValue := v\<rparr>))
      \<le> level_rank (assessSecurityRequirement (ctx\<lparr>transactionValue := v'\<rparr>)))
   \<and> (profile_rank p \<le> profile_rank p' \<longrightarrow>
      level_rank (assessSecurityRequirement (ctx\<lparr>userRiskProfile := p\<rparr>))
      \<le> level_rank (assessSecurityRequirement (ctx\<lparr>userRiskProfile := p'\<rparr>)))
   \<and> (network_rank n \<le> network_rank n' \<longrightarrow>
      level_rank (assessSecurityRequirement (ctx\<lparr>networkConditions := n\<rparr>))
      \<le> level_rank (assessSecurityRequirement (ctx\<lparr>networkConditions := n'\<rparr>)))
   \<and> (quantum_rank t \<le> quantum_rank t' \<longrightarrow>
      level_rank (assessSecurityRequirement (ctx\<lparr>quantumThreatLevel := t\<rparr>))
      \<le> level_rank (assessSecurityRequirement (ctx\<lparr>quantumThreatLevel := t'\<rparr>)))
   \<and> (g \<le> g' \<longrightarrow>
      level_rank (assessSecurityRequirement (ctx\<lparr>geopoliticalRisk := g\<rparr>))
      \<le> level_rank (assessSecurityRequirement (ctx\<lparr>geopoliticalRisk := g'\<rparr>)))
   \<and> (\<exists>l. assessSecurityRequirement ctx = l)"
  by (intro conjI impI assess_mono_all) simp_all

theorem assess_monotone_each_input_witness:
  "level_rank (assessSecurityRequirement
      \<lparr>transactionValue = 5000, userRiskProfile = Profile_medium,
       networkConditions = Network_normal, quantumThreatLevel = Quantum_none,
       geopoliticalRisk = 4\<rparr>) = 1
   \<and> level_rank (assessSecurityRequirement
      \<lparr>transactionValue = 2000000, userRiskProfile = Profile_medium,
       networkConditions = Network_normal, quantumThreatLevel = Quantum_none,
       geopoliticalRisk = 4\<rparr>) = 2
   \<and> level_rank (assessSecurityRequirement
      \<lparr>transactionValue = 5000, userRiskProfile = Profile_high,
       networkConditions = Network_normal, quantumThreatLevel = Quantum_none,
       geopoliticalRisk = 4\<rparr>) = 2
   \<and> level_rank (assessSecurityRequirement
      \<lparr>transactionValue = 5000, userRiskProfile = Profile_medium,
       networkConditions = Network_hostile, quantumThreatLevel = Quantum_none,
       geopoliticalRisk = 4\<rparr>) = 2
   \<and> level_rank (assessSecurityRequirement
      \<lparr>transactionValue = 5000, userRiskProfile = Profile_medium,
       networkConditions = Network_normal, quantumThreatLevel = Quantum_suspected,
       geopoliticalRisk = 4\<rparr>) = 3
   \<and> level_rank (assessSecurityRequirement
      \<lparr>transactionValue = 5000, userRiskProfile = Profile_medium,
       networkConditions = Network_normal, quantumThreatLevel = Quantum_none,
       geopoliticalRisk = 10\<rparr>) = 2"
  using assess_monotone_each_input
    [of 5000 2000000
        "\<lparr>transactionValue = 5000, userRiskProfile = Profile_medium,
          networkConditions = Network_normal, quantumThreatLevel = Quantum_none,
          geopoliticalRisk = 4\<rparr>"
        Profile_medium Profile_high Network_normal Network_hostile
        Quantum_none Quantum_suspected 4 10]
  by (simp add: assessSecurityRequirement_def mapRiskScore_def)

section \<open>Properties of the simulated primitives\<close>

lemma draws_text_Suc_front:
  "draws_text g (Suc n) = random_char (g 0) @ draws_text (\<lambda>k. g (Suc k)) n"
  unfolding draws_text_def
  by (simp add: upt_conv_Cons map_Suc_upt [symmetric] o_def del: upt_Suc)

lemma generateRandomHex_loop_eq:
  "generateRandomHex_loop i len result g =
     (result @ draws_text g (nat \<lceil>len\<rceil> - i), skip_draws (nat \<lceil>len\<rceil> - i) g)"
proof (induction i len result g rule: generateRandomHex_loop.induct)
  case (1 i len result g)
  show ?case
  proof (cases "real i < len")
    case True
    then have "i < nat \<lceil>len\<rceil>" by linarith
    then have n: "nat \<lceil>len\<rceil> - i = Suc (nat \<lceil>len\<rceil> - (i + 1))" by simp
    have "generateRandomHex_loop i len result g =
          generateRandomHex_loop (i + 1) len (result @ random_char (fst (math_random g))) (snd (math_random g))"
      using True by (subst generateRandomHex_loop.simps) simp
    also have "\<dots> = ((result @ random_char (fst (math_random g))) @ draws_text (snd (math_random g)) (nat \<lceil>len\<rceil> - (i + 1)),
         skip_draws (nat \<lceil>len\<rceil> - (i + 1)) (snd (math_random g)))"
      using "1.IH" [OF True] .
    also have "\<dots> = (result @ draws_text g (nat \<lceil>len\<rceil> - i), skip_draws (nat \<lceil>len\<rceil> - i) g)"
      unfolding n draws_text_Suc_front
      by (simp add: math_random_def skip_draws_def)
    finally show ?thesis .
  next
    case False
    then have "nat \<lceil>len\<rceil> - i = 0" by linarith
    with False show ?thesis
      by (subst generateRandomHex_loop.simps) (simp add: draws_text_def skip_draws_def)
  qed
qed

lemma generateRandomHex_Some:
  "generateRandomHex (Some l) g = (draws_text g (nat \<lceil>l\<rceil>), skip_draws (nat \<lceil>l\<rceil>) g)"
  by (simp add: generateRandomHex_def generateRandomHex_loop_eq)

lemma generateRandomHex_None:
  "generateRandomHex None g = ([], g)"
  by (simp add: generateRandomHex_def)

lemma skip_draws_skip: "skip_draws m (skip_draws n g) = skip_draws (n + m) g"
  by (simp add: skip_draws_def ac_simps)

lemma math_random_snd: "snd (math_random g) = skip_draws 1 g"
  by (simp add: math_random_def skip_draws_def)

lemma draws_text_cong:
  "(\<And>k. k < n \<Longrightarrow> g k = g' k) \<Longrightarrow> draws_text g n = draws_text g' n"
  unfolding draws_text_def by (intro arg_cong [where f = concat] map_cong) simp_all

lemma draws_text_const:
  "(\<And>k. k < n \<Longrightarrow> random_char (g k) = [c]) \<Longrightarrow> draws_text g n = replicate n c"
  unfolding draws_text_def
  by (induction n) (simp_all add: replicate_append_same)

lemma length_draws_text:
  "(\<And>k. k < n \<Longrightarrow> 0 \<le> g k \<and> g k < 1) \<Longrightarrow> length (draws_text g n) = n"
proof (induction n)
  case 0
  show ?case by (simp add: draws_text_def)
next
  case (Suc n)
  have "0 \<le> g n" "g n < 1" using Suc.prems [of n] by simp_all
  then have "0 \<le> \<lfloor>g n * 16\<rfloor>" "\<lfloor>g n * 16\<rfloor> < 16"
    by (simp_all add: floor_less_iff)
  then have "length (random_char (g n)) = 1"
    by (simp add: random_char_def chars_def Let_def)
  moreover have "length (draws_text g n) = n"
    using Suc.prems by (intro Suc.IH) simp
  ultimately show ?case
    by (simp add: draws_text_def)
qed

lemma generateDilithiumKeys_eq:
  "generateDilithiumKeys variant g =
    (case selectKeySpec variant of
       None \<Rightarrow> (\<lparr>publicKey = [], privateKey = [], publicKeySize = None, privateKeySize = None,
                  securityLevel = None, algorithm = variant\<rparr>, skip_draws 1 g)
     | Some s \<Rightarrow>
        (\<lparr>publicKey = draws_text (skip_draws 1 g) (nat \<lceil>specPublicKeySize s * 2\<rceil>),
          privateKey = draws_text (skip_draws (1 + nat \<lceil>specPublicKeySize s * 2\<rceil>) g)
                         (nat \<lceil>specPrivateKeySize s * 2\<rceil>),
          publicKeySize = Some (specPublicKeySize s),
          privateKeySize = Some (specPrivateKeySize s),
          securityLevel = Some (specSecurityLevel s),
          algorithm = variant\<rparr>,
         skip_draws (1 + nat \<lceil>specPublicKeySize s * 2\<rceil> + nat \<lceil>specPrivateKeySize s * 2\<rceil>) g))"
  by (simp add: generateDilithiumKeys_def Let_def generateRandomHex_Some generateRandomHex_None
      math_random_snd skip_draws_skip split: option.splits)

lemma selectKeySpec_dilithium3:
  "selectKeySpec ''dilithium3'' = Some \<lparr>specPublicKeySize = 1952, specPrivateKeySize = 4000,
                             specSecurityLevel = ''Level 3''\<rparr>"
  by (simp add: selectKeySpec_def js_get_def keySpecs_def)

lemma generateECDSAKeys_eq:
  "generateECDSAKeys g =
     (\<lparr>publicKey = draws_text (skip_draws 1 g) 128,
       privateKey = draws_text (skip_draws 129 g) 64,
       publicKeySize = Some 64, privateKeySize = Some 32,
       securityLevel = Some ''128-bit'', algorithm = ''ecdsa''\<rparr>, skip_draws 193 g)"
  by (simp add: generateECDSAKeys_def Let_def generateRandomHex_Some math_random_snd skip_draws_skip)

lemma signMessage_ecdsa:
  "signMessage message ''ecdsa'' g =
     (\<lparr>signature = draws_text (skip_draws 3 g) 128, signatureSize = Some 64,
       signerPublicKey = Some (draws_text (skip_draws 132 g) 128),
       signatureAlgorithm = ''ecdsa''\<rparr>, skip_draws 324 g)"
  by (simp add: signMessage_def Let_def js_get_def signatureSizes_def generateRandomHex_Some
      math_random_snd skip_draws_skip generateECDSAKeys_eq numeral_3_eq_3 [symmetric])

lemma signMessage_dilithium3:
  "signMessage message ''dilithium3'' g =
     (\<lparr>signature = draws_text (skip_draws 3 g) 6586, signatureSize = Some 3293,
       signerPublicKey = Some (draws_text (skip_draws 6590 g) 3904),
       signatureAlgorithm = ''dilithium3''\<rparr>, skip_draws 18494 g)"
  by (simp add: signMessage_def Let_def js_get_def signatureSizes_def generateRandomHex_Some
      math_random_snd skip_draws_skip generateDilithiumKeys_eq selectKeySpec_dilithium3
      numeral_3_eq_3 [symmetric])

lemma generateHybridSignature_standard:
  "generateHybridSignature message Hybrid_standard g =
     (\<lparr>signature = draws_text (skip_draws 3 g) 128 @ draws_text (skip_draws 324 g) 128,
       signatureSize = Some 128, signerPublicKey = None,
       signatureAlgorithm = ''hybrid-standard''\<rparr>, skip_draws 452 g)"
  by (simp add: generateHybridSignature_def signMessage_ecdsa generateRandomHex_Some skip_draws_skip)

lemma random_char_zero: "random_char 0 = ''0''"
  by (simp add: random_char_def chars_def)

lemma random_char_half: "random_char (1 / 2) = ''8''"
  by (simp add: random_char_def chars_def)

lemma draws_zero: "draws_text (skip_draws m zero_draws) n = replicate n CHR ''0''"
  by (rule draws_text_const) (simp add: skip_draws_def zero_draws_def random_char_zero)

lemma draws_half: "draws_text (skip_draws m half_draws) n = replicate n CHR ''8''"
  by (rule draws_text_const) (simp add: skip_draws_def half_draws_def random_char_half)

text \<open>
  Claim C10. Whatever the message, the signature string, the public key and the
  algorithm name (a signature that \<^verbatim>\<open>signMessage\<close> never produced and a key
  unrelated to it included), and whatever the state of the random source, the promise
  of \<^verbatim>\<open>verifySignature\<close> resolves with \<^verbatim>\<open>true\<close>; it never rejects.
\<close>

theorem verifySignature_always_true:
  "fst (verifySignature message sig pubkey algo g) = Inr True"
  by (simp add: verifySignature_def Let_def)

text \<open>
  Claim C2. For every message, every algorithm name and every state of the random
  source (the code has no seed: the random source stands for it), the signature
  returned by \<^verbatim>\<open>signMessage\<close> verifies: \<^verbatim>\<open>verifySignature\<close> resolves with
  \<^verbatim>\<open>true\<close> under the public key that \<^verbatim>\<open>signMessage\<close> returns with the
  signature, and also under the public key of a key pair generated beforehand by
  \<^verbatim>\<open>generateDilithiumKeys\<close>, for every variant.
\<close>

theorem sign_then_verify:
  "(case signMessage message algo g of
      (s, g') \<Rightarrow>
        (case signerPublicKey s of
           Some pk \<Rightarrow> fst (verifySignature message (signature s) pk algo g') = Inr True
         | None \<Rightarrow> False))
   \<and> (case generateDilithiumKeys variant g of
        (keys, g1) \<Rightarrow>
          (case signMessage message algo g1 of
             (s, g2) \<Rightarrow>
               fst (verifySignature message (signature s) (publicKey keys) algo g2)
                 = Inr True))"
proof
  show "case signMessage message algo g of
          (s, g') \<Rightarrow>
            (case signerPublicKey s of
               Some pk \<Rightarrow> fst (verifySignature message (signature s) pk algo g') = Inr True
             | None \<Rightarrow> False)"
    by (simp add: signMessage_def verifySignature_def Let_def split: prod.splits)
next
  show "case generateDilithiumKeys variant g of
          (keys, g1) \<Rightarrow>
            (case signMessage message algo g1 of
               (s, g2) \<Rightarrow>
                 fst (verifySignature message (signature s) (publicKey keys) algo g2)
                   = Inr True)"
    by (simp add: verifySignature_def Let_def split: prod.splits)
qed

text \<open>
  Claim C1 does not hold of \<^verbatim>\<open>verifySignature\<close>. With a source of zero draws,
  \<^verbatim>\<open>signMessage("Hello", "dilithium3")\<close> returns the signature of 6586 digits
  \<^verbatim>\<open>0\<close> and a key of 3904 digits \<^verbatim>\<open>0\<close>; the signature with the lowest bit of
  its first digit flipped (\<^verbatim>\<open>1\<close> followed by 6585 digits \<^verbatim>\<open>0\<close>) is accepted for
  the same message and key.
\<close>

theorem tampered_signature_accepted:
  "signature (fst (signMessage ''Hello'' ''dilithium3'' zero_draws)) = replicate 6586 CHR ''0''
   \<and> signerPublicKey (fst (signMessage ''Hello'' ''dilithium3'' zero_draws))
       = Some (replicate 3904 CHR ''0'')
   \<and> fst (verifySignature ''Hello'' (CHR ''1'' # replicate 6585 CHR ''0'')
            (replicate 3904 CHR ''0'') ''dilithium3''
            (snd (signMessage ''Hello'' ''dilithium3'' zero_draws))) = Inr True"
  by (simp add: signMessage_dilithium3 draws_zero verifySignature_def Let_def)

text \<open>
  Claim C1, as the code has it. The documented \<^verbatim>\<open>dilithiumVerify\<close> returns
  \<^verbatim>\<open>false\<close> for every signature whose \<open>z\<close> has an infinity norm of at least
  \<open>gamma1 - beta\<close>, whatever the other components and the helper functions. The
  runnable \<^verbatim>\<open>verifySignature\<close> checks nothing: a string that differs from the
  signature \<^verbatim>\<open>signMessage\<close> returned is accepted like the signature itself.
\<close>

theorem tampering_undetected_norm_checked:
  "(vectorInfinityNorm ops (sig_z sg)
      \<ge> paramGamma1 (getParams ops (pk_level pk)) - paramBeta (getParams ops (pk_level pk))
    \<longrightarrow> dilithiumVerify ops message sg pk = False)
   \<and> (s' \<noteq> signature (fst (signMessage msg algo g))
    \<longrightarrow> fst (verifySignature msg s' pubkey algo g') = Inr True)"
  by (simp add: dilithiumVerify_def verifySignature_def Let_def)

text \<open>
  Both hypotheses are met on the small instance: a \<open>z\<close> of norm 9 against the bound
  \<open>10 - 2\<close>, and a signature of zero digits with one bit flipped.
\<close>

theorem tampering_undetected_norm_checked_witness:
  "dilithiumVerify demo_ops [] \<lparr>c_tilde = [], sig_z = [[9]], sig_h = ()\<rparr> demo_public_key = False
   \<and> CHR ''1'' # replicate 127 CHR ''0'' \<noteq> signature (fst (signMessage ''Hello'' ''ecdsa'' zero_draws))
   \<and> fst (verifySignature ''Hello'' (CHR ''1'' # replicate 127 CHR ''0'')
            (replicate 128 CHR ''0'') ''ecdsa'' zero_draws) = Inr True"
proof -
  have norm: "vectorInfinityNorm demo_ops (sig_z \<lparr>c_tilde = [], sig_z = [[9]], sig_h = ()\<rparr>)
          \<ge> paramGamma1 (getParams demo_ops (pk_level demo_public_key))
            - paramBeta (getParams demo_ops (pk_level demo_public_key))"
    by (simp add: demo_ops_def demo_params_def)
  have "replicate 128 CHR ''0'' = CHR ''0'' # replicate 127 CHR ''0''"
    using replicate_Suc [of 127 "CHR ''0''"] by simp
  then have diff: "CHR ''1'' # replicate 127 CHR ''0''
          \<noteq> signature (fst (signMessage ''Hello'' ''ecdsa'' zero_draws))"
    by (simp add: signMessage_ecdsa draws_zero)
  show ?thesis
    using norm diff
      tampering_undetected_norm_checked
        [where ops = demo_ops and sg = "\<lparr>c_tilde = [], sig_z = [[9]], sig_h = ()\<rparr>"
           and pk = demo_public_key and message = "[]"
           and s' = "CHR ''1'' # replicate 127 CHR ''0''" and msg = "''Hello''"
           and algo = "''ecdsa''" and g = zero_draws
           and pubkey = "replicate 128 CHR ''0''" and g' = zero_draws]
    by simp
qed

text \<open>
  Claim C5 does not hold of \<^verbatim>\<open>generateDilithiumKeys\<close>, which takes no seed: two
  calls with the same variant return different key pairs when the random source
  differs (here all draws 0 against all draws 1/2).
\<close>

theorem keygen_not_deterministic:
  "fst (generateDilithiumKeys ''dilithium3'' zero_draws)
   \<noteq> fst (generateDilithiumKeys ''dilithium3'' half_draws)"
proof
  assume "fst (generateDilithiumKeys ''dilithium3'' zero_draws)
          = fst (generateDilithiumKeys ''dilithium3'' half_draws)"
  then have "publicKey (fst (generateDilithiumKeys ''dilithium3'' zero_draws))
          = publicKey (fst (generateDilithiumKeys ''dilithium3'' half_draws))"
    by simp
  then have "replicate 3904 CHR ''0'' = replicate 3904 CHR ''8''"
    by (simp add: generateDilithiumKeys_eq selectKeySpec_dilithium3 draws_zero draws_half)
  then have "replicate 3904 CHR ''0'' ! 0 = replicate 3904 CHR ''8'' ! 0"
    by (rule arg_cong)
  then show False
    by simp
qed

text \<open>
  Claim C5, as the code has it. The key pair \<^verbatim>\<open>generateDilithiumKeys\<close> returns is
  a function of the variant and of the draws it takes from the random source, one for
  the delay and one per hexadecimal digit of the two keys: two calls with the same
  variant whose sources agree on these draws return identical key pairs.
\<close>

theorem keygen_determined_by_draws:
  "(\<forall>k < keygen_draws variant. g k = g' k) \<longrightarrow>
     fst (generateDilithiumKeys variant g) = fst (generateDilithiumKeys variant g')"
proof
  assume eq: "\<forall>k < keygen_draws variant. g k = g' k"
  show "fst (generateDilithiumKeys variant g) = fst (generateDilithiumKeys variant g')"
  proof (cases "selectKeySpec variant")
    case None
    then show ?thesis by (simp add: generateDilithiumKeys_eq)
  next
    case (Some s)
    let ?a = "nat \<lceil>specPublicKeySize s * 2\<rceil>" and ?b = "nat \<lceil>specPrivateKeySize s * 2\<rceil>"
    from eq Some have eq': "\<And>k. k < 1 + ?a + ?b \<Longrightarrow> g k = g' k"
      by (simp add: keygen_draws_def)
    have "draws_text (skip_draws 1 g) ?a = draws_text (skip_draws 1 g') ?a"
      by (rule draws_text_cong) (simp add: skip_draws_def eq')
    moreover have "draws_text (skip_draws (1 + ?a) g) ?b = draws_text (skip_draws (1 + ?a) g') ?b"
      by (rule draws_text_cong) (simp add: skip_draws_def eq')
    ultimately show ?thesis
      using Some by (simp add: generateDilithiumKeys_eq)
  qed
qed

text \<open>
  At \<^verbatim>\<open>generateDilithiumKeys("dilithium3")\<close> the draws are 1 + 3904 + 8000; two sources that
  agree on the first 20000 draws and differ afterwards give the same key pair.
\<close>

theorem keygen_determined_by_draws_witness:
  "keygen_draws ''dilithium3'' = 11905
   \<and> fst (generateDilithiumKeys ''dilithium3'' zero_draws)
     = fst (generateDilithiumKeys ''dilithium3'' late_half_draws)"
  using keygen_determined_by_draws [of "''dilithium3''" zero_draws late_half_draws]
  by (simp add: keygen_draws_def selectKeySpec_dilithium3 zero_draws_def late_half_draws_def)

text \<open>
  Claim C9 does not hold of \<^verbatim>\<open>generateHybridSignature\<close>. The proof appended to
  the ECDSA signature in standard mode (the last 128 digits) is the same for two
  different messages when the random source is the same, and differs for one message
  when the random source differs.
\<close>

theorem hybrid_commitment_is_random_text:
  "drop 128 (signature (fst (generateHybridSignature ''Hello'' Hybrid_standard zero_draws)))
     = replicate 128 CHR ''0''
   \<and> drop 128 (signature (fst (generateHybridSignature ''World'' Hybrid_standard zero_draws)))
     = replicate 128 CHR ''0''
   \<and> drop 128 (signature (fst (generateHybridSignature ''Hello'' Hybrid_standard half_draws)))
     = replicate 128 CHR ''8''"
  by (simp add: generateHybridSignature_standard draws_zero draws_half)

text \<open>
  Claim C9, as the code has it. In standard mode \<^verbatim>\<open>generateHybridSignature\<close>
  returns the algorithm \<^verbatim>\<open>hybrid-standard\<close>, the size 128 (64 + 64) and the
  simulated ECDSA signature followed by a proof that is the text of 128 fresh draws of
  the random source (draws 324 to 451 after the call); the result does not depend on
  the message; and when the draws lie in \<open>[0, 1)\<close> both parts have the fixed length of
  128 hexadecimal digits.
\<close>

theorem hybrid_standard_result:
  "signatureAlgorithm (fst (generateHybridSignature message Hybrid_standard g)) = ''hybrid-standard''
   \<and> signatureSize (fst (generateHybridSignature message Hybrid_standard g)) = Some 128
   \<and> signature (fst (generateHybridSignature message Hybrid_standard g))
       = signature (fst (signMessage message ''ecdsa'' g)) @ draws_text (skip_draws 324 g) 128
   \<and> generateHybridSignature message' Hybrid_standard g
       = generateHybridSignature message Hybrid_standard g
   \<and> ((\<forall>k<452. 0 \<le> g k \<and> g k < 1) \<longrightarrow>
        length (signature (fst (signMessage message ''ecdsa'' g))) = 128
        \<and> length (draws_text (skip_draws 324 g) 128) = 128)"
proof -
  have "length (draws_text (skip_draws 3 g) 128) = 128
        \<and> length (draws_text (skip_draws 324 g) 128) = 128"
    if "\<forall>k<452. 0 \<le> g k \<and> g k < 1"
    using that by (intro conjI length_draws_text) (simp_all add: skip_draws_def)
  then show ?thesis
    by (simp add: generateHybridSignature_standard signMessage_ecdsa)
qed

text \<open>
  With zero draws, all in \<open>[0, 1)\<close>, the result for \<^verbatim>\<open>"Hello"\<close> is 256 digits
  \<^verbatim>\<open>0\<close>.
\<close>

theorem hybrid_standard_result_witness:
  "signature (fst (generateHybridSignature ''Hello'' Hybrid_standard zero_draws))
     = replicate 128 CHR ''0'' @ replicate 128 CHR ''0''
   \<and> length (draws_text (skip_draws 324 zero_draws) 128) = 128"
  using hybrid_standard_result [of "''Hello''" zero_draws "''World''"]
  by (simp add: signMessage_ecdsa draws_zero)

section \<open>Properties of the signing loop\<close>

lemma dilithiumSign_loop_spec:
  "a \<le> maxAttempts \<Longrightarrow>
   (case dilithiumSign_loop ops params sk mu a of
      (n, r) \<Rightarrow>
        a \<le> n \<and> n \<le> maxAttempts
        \<and> (case r of
             Inr s \<Rightarrow> n < maxAttempts \<and> signAttempt ops params sk mu n = Some s
           | Inl e \<Rightarrow> n = maxAttempts
                      \<and> e = Error ''Signature generation failed after maximum attempts'')
        \<and> (\<forall>b. a \<le> b \<and> b < n \<longrightarrow> signAttempt ops params sk mu b = None))"
proof (induction ops params sk mu a rule: dilithiumSign_loop.induct)
  case (1 ops params sk mu attempt)
  show ?case
  proof (cases "attempt < maxAttempts")
    case False
    with "1.prems" show ?thesis
      by (subst dilithiumSign_loop.simps) auto
  next
    case True
    show ?thesis
    proof (cases "signAttempt ops params sk mu attempt")
      case (Some s)
      with True show ?thesis
        by (subst dilithiumSign_loop.simps) auto
    next
      case None
      have step: "dilithiumSign_loop ops params sk mu attempt
                  = dilithiumSign_loop ops params sk mu (attempt + 1)"
        using True None by (subst dilithiumSign_loop.simps) simp
      have "attempt + 1 \<le> maxAttempts" using True by simp
      from "1.IH" [OF True None this] show ?thesis
        unfolding step using None
        by (auto split: prod.splits sum.splits) (metis Suc_leI le_neq_implies_less)+
    qed
  qed
qed

text \<open>The small instance, evaluated.\<close>

lemma demo_ops_fields:
  "getParams demo_ops level = demo_params"
  "shake256 demo_ops input outlen None = []"
  "concat_bytes demo_ops a b = a @ b"
  by (simp_all add: demo_ops_def)

lemma demo_key_fields:
  "sk_tr demo_key = []" "sk_level demo_key = 2"
  by (simp_all add: demo_key_def)

lemma demo_attempt:
  "signAttempt demo_ops demo_params demo_key [] n =
     (if 8 \<le> \<bar>10 - int n\<bar> then None
      else Some \<lparr>c_tilde = [], sig_z = [[10 - int n]], sig_h = ()\<rparr>)"
  by (simp add: signAttempt_def demo_ops_def demo_params_def demo_key_def Let_def)

text \<open>
  When every pass is rejected the loop runs out after \<open>maxAttempts\<close> passes and the
  error is the result.
\<close>

lemma dilithiumSign_loop_exhausted:
  assumes "\<forall>b<maxAttempts. signAttempt ops params sk mu b = None"
  shows "dilithiumSign_loop ops params sk mu 0
         = (maxAttempts, Inl (Error ''Signature generation failed after maximum attempts''))"
proof -
  obtain n r where nr: "dilithiumSign_loop ops params sk mu 0 = (n, r)"
    by (cases "dilithiumSign_loop ops params sk mu 0")
  have spec: "n \<le> maxAttempts
        \<and> (case r of
             Inr s \<Rightarrow> n < maxAttempts \<and> signAttempt ops params sk mu n = Some s
           | Inl e \<Rightarrow> n = maxAttempts
                      \<and> e = Error ''Signature generation failed after maximum attempts'')"
    using dilithiumSign_loop_spec [of 0 ops params sk mu] nr by simp
  show ?thesis
  proof (cases r)
    case (Inl e)
    with spec nr show ?thesis by simp
  next
    case (Inr s)
    with spec have "n < maxAttempts" "signAttempt ops params sk mu n = Some s"
      by simp_all
    with assms show ?thesis by simp
  qed
qed

text \<open>
  Claim C7. \<^verbatim>\<open>dilithiumSign\<close> always returns (the loop is a total function, its
  measure \<open>maxAttempts - attempt\<close> decreasing with every pass), with
  \<open>maxAttempts = 1000\<close>. Its result is that of the loop started at attempt 0, which
  ends with a final attempt number \<open>n\<close> of at most \<open>maxAttempts\<close>: either with the
  signature of pass \<open>n < maxAttempts\<close>, the passes before \<open>n\<close> all rejected (\<open>n + 1\<close>
  passes, at most 1000), or, all 1000 passes rejected, with the error
  \<^verbatim>\<open>Signature generation failed after maximum attempts\<close>; no pass runs with an
  attempt number of \<open>maxAttempts\<close> or more.
\<close>

theorem dilithiumSign_bounded:
  "(let params = getParams ops (sk_level sk);
        mu = shake256 ops (concat_bytes ops (sk_tr sk) message) 32 None
    in case dilithiumSign_loop ops params sk mu 0 of
         (n, r) \<Rightarrow>
           dilithiumSign ops message sk = r
           \<and> n \<le> maxAttempts \<and> maxAttempts = 1000
           \<and> (case r of
                Inr s \<Rightarrow> n < maxAttempts \<and> signAttempt ops params sk mu n = Some s
              | Inl e \<Rightarrow> n = maxAttempts
                         \<and> e = Error ''Signature generation failed after maximum attempts'')
           \<and> (\<forall>b<n. signAttempt ops params sk mu b = None))"
  using dilithiumSign_loop_spec
    [of 0 ops "getParams ops (sk_level sk)" sk
        "shake256 ops (concat_bytes ops (sk_tr sk) message) 32 None"]
  by (simp add: dilithiumSign_def Let_def maxAttempts_def split: prod.splits)

text \<open>
  On the small instance the loop rejects attempts 0, 1 and 2 and returns the signature
  of attempt 3.
\<close>

theorem dilithiumSign_bounded_witness:
  "dilithiumSign_loop demo_ops demo_params demo_key [] 0
     = (3, Inr \<lparr>c_tilde = [], sig_z = [[7]], sig_h = ()\<rparr>)
   \<and> dilithiumSign demo_ops [] demo_key = Inr \<lparr>c_tilde = [], sig_z = [[7]], sig_h = ()\<rparr>"
  using dilithiumSign_bounded [of demo_ops demo_key "[]"]
  by (simp add: dilithiumSign_def Let_def dilithiumSign_loop.simps demo_attempt maxAttempts_def
      demo_ops_fields demo_key_fields)

section \<open>Properties of the coefficient compression\<close>

lemma div_mod_eq_iff: "(j::nat) div 8 = off div 8 \<and> j mod 8 = off mod 8 \<longleftrightarrow> j = off"
  by (metis div_mult_mod_eq)

lemma stream_bit_update:
  "stream_bit (c[off div 8 := (c ! (off div 8)) OR push_bit (off mod 8) 1]) j
   \<longleftrightarrow> stream_bit c j \<or> (j = off \<and> off div 8 < length c)"
proof (cases "j div 8 = off div 8")
  case True
  have "j mod 8 = off mod 8 \<longleftrightarrow> j = off"
    using True div_mod_eq_iff [of j off] by auto
  then show ?thesis
    using True
    by (auto simp add: stream_bit_def bit_or_iff bit_exp_iff)
next
  case False
  then have "j \<noteq> off" by auto
  with False show ?thesis
    by (simp add: stream_bit_def)
qed

lemma packBit_eq:
  "packBit q b (c, off) =
     (if bit q b then c[off div 8 := (c ! (off div 8)) OR push_bit (off mod 8) 1] else c, off + 1)"
  by (simp add: Let_def)

lemma fold_packBit_snd: "snd (fold (packBit q) [0..<n] (c, off)) = off + n"
proof (induction n)
  case 0
  show ?case by simp
next
  case (Suc n)
  obtain c' off' where st: "fold (packBit q) [0..<n] (c, off) = (c', off')"
    by (cases "fold (packBit q) [0..<n] (c, off)")
  with Suc show ?case by (simp add: Let_def)
qed

lemma fold_packBit_length: "length (fst (fold (packBit q) [0..<n] (c, off))) = length c"
proof (induction n)
  case 0
  show ?case by simp
next
  case (Suc n)
  obtain c' off' where st: "fold (packBit q) [0..<n] (c, off) = (c', off')"
    by (cases "fold (packBit q) [0..<n] (c, off)")
  with Suc show ?case by (simp add: Let_def)
qed

lemma fold_packBit_bits:
  "stream_bit (fst (fold (packBit q) [0..<n] (c, off))) j
   \<longleftrightarrow> stream_bit c j \<or> (off \<le> j \<and> j < off + n \<and> bit q (j - off) \<and> j div 8 < length c)"
proof (induction n)
  case 0
  show ?case by auto
next
  case (Suc n)
  obtain c' off' where st: "fold (packBit q) [0..<n] (c, off) = (c', off')"
    by (cases "fold (packBit q) [0..<n] (c, off)")
  have off': "off' = off + n"
    using fold_packBit_snd [of q n c off] st by simp
  have len: "length c' = length c"
    using fold_packBit_length [of q n c off] st by simp
  have IH: "stream_bit c' j
     \<longleftrightarrow> stream_bit c j \<or> (off \<le> j \<and> j < off + n \<and> bit q (j - off) \<and> j div 8 < length c)"
    using Suc st by simp
  have step: "fst (fold (packBit q) [0..<Suc n] (c, off))
     = (if bit q n then c'[off' div 8 := (c' ! (off' div 8)) OR push_bit (off' mod 8) 1] else c')"
    using st by (simp add: Let_def)
  show ?case
  proof (cases "bit q n")
    case True
    have "stream_bit (fst (fold (packBit q) [0..<Suc n] (c, off))) j
          \<longleftrightarrow> stream_bit c' j \<or> (j = off' \<and> off' div 8 < length c')"
      unfolding step using True by (simp only: if_True stream_bit_update)
    then show ?thesis
      using IH off' len True by auto
  next
    case False
    have "\<not> (j = off + n \<and> bit q (j - off))"
      using False by auto
    then show ?thesis
      unfolding step using IH False
      by (auto simp add: less_Suc_eq)
  qed
qed

lemma div_mod_block:
  fixes j m bits :: nat
  assumes "m * bits \<le> j" "j < m * bits + bits"
  shows "j div bits = m" "j mod bits = j - m * bits"
proof -
  show d: "j div bits = m"
    using assms by (intro div_nat_eqI) (simp_all add: mult.commute)
  show "j mod bits = j - m * bits"
    using d minus_div_mult_eq_mod [of j bits] by simp
qed

lemma fold_packCoefficient_snd:
  "snd (fold (packCoefficient poly bits) [0..<m] (c, 0)) = m * bits"
proof (induction m)
  case 0
  show ?case by simp
next
  case (Suc m)
  obtain c' off' where st: "fold (packCoefficient poly bits) [0..<m] (c, 0) = (c', off')"
    by (cases "fold (packCoefficient poly bits) [0..<m] (c, 0)")
  with Suc show ?case
    by (simp add: fold_packBit_snd)
qed

lemma fold_packCoefficient_length:
  "length (fst (fold (packCoefficient poly bits) [0..<m] (c, 0))) = length c"
proof (induction m)
  case 0
  show ?case by simp
next
  case (Suc m)
  obtain c' off' where st: "fold (packCoefficient poly bits) [0..<m] (c, 0) = (c', off')"
    by (cases "fold (packCoefficient poly bits) [0..<m] (c, 0)")
  with Suc show ?case
    by (simp add: fold_packBit_length)
qed

lemma fold_packCoefficient_bits:
  "stream_bit (fst (fold (packCoefficient poly bits) [0..<m] (c, 0))) j
   \<longleftrightarrow> stream_bit c j
       \<or> (j < m * bits \<and> j div 8 < length c
           \<and> bit (quantize poly bits (j div bits)) (j mod bits))"
proof (induction m)
  case 0
  show ?case by simp
next
  case (Suc m)
  obtain c' off' where st: "fold (packCoefficient poly bits) [0..<m] (c, 0) = (c', off')"
    by (cases "fold (packCoefficient poly bits) [0..<m] (c, 0)")
  have snd_st: "off' = m * bits"
    using fold_packCoefficient_snd [of poly bits m c] st by simp
  have len_st: "length c' = length c"
    using fold_packCoefficient_length [of poly bits m c] st by simp
  have IH: "stream_bit c' j \<longleftrightarrow> stream_bit c j
       \<or> (j < m * bits \<and> j div 8 < length c
           \<and> bit (quantize poly bits (j div bits)) (j mod bits))"
    using Suc st by simp
  have "stream_bit (fst (fold (packCoefficient poly bits) [0..<Suc m] (c, 0))) j
        \<longleftrightarrow> stream_bit c' j
            \<or> (m * bits \<le> j \<and> j < m * bits + bits
                \<and> bit (quantize poly bits m) (j - m * bits) \<and> j div 8 < length c)"
    by (simp add: st fold_packBit_bits snd_st len_st)
  also have "\<dots> \<longleftrightarrow> stream_bit c j
       \<or> (j < Suc m * bits \<and> j div 8 < length c
           \<and> bit (quantize poly bits (j div bits)) (j mod bits))"
  proof (cases "m * bits \<le> j \<and> j < m * bits + bits")
    case True
    then have "j div bits = m" "j mod bits = j - m * bits"
      using div_mod_block [of m bits j] by simp_all
    with True show ?thesis
      unfolding IH by auto
  next
    case False
    then have "j < Suc m * bits \<longleftrightarrow> j < m * bits"
      by auto
    with False show ?thesis
      unfolding IH by auto
  qed
  finally show ?case .
qed

lemma unpackBit_eq:
  "unpackBit c b (v, off) =
     (if stream_bit c off then v OR push_bit b 1 else v, off + 1)"
  by (simp add: Let_def stream_bit_def)

lemma fold_unpackBit_snd: "snd (fold (unpackBit c) [0..<n] (v, off)) = off + n"
proof (induction n)
  case 0
  show ?case by simp
next
  case (Suc n)
  obtain v' off' where st: "fold (unpackBit c) [0..<n] (v, off) = (v', off')"
    by (cases "fold (unpackBit c) [0..<n] (v, off)")
  with Suc show ?case
    by (simp add: Let_def)
qed

lemma fold_unpackBit_bits:
  "bit (fst (fold (unpackBit c) [0..<n] (v, off))) k
   \<longleftrightarrow> bit v k \<or> (k < n \<and> stream_bit c (off + k))"
proof (induction n)
  case 0
  show ?case by simp
next
  case (Suc n)
  obtain v' off' where st: "fold (unpackBit c) [0..<n] (v, off) = (v', off')"
    by (cases "fold (unpackBit c) [0..<n] (v, off)")
  have off': "off' = off + n"
    using fold_unpackBit_snd [of c n v off] st by simp
  have IH: "bit v' k \<longleftrightarrow> bit v k \<or> (k < n \<and> stream_bit c (off + k))"
    using Suc st by simp
  have one: "bit (push_bit n (1::int)) k \<longleftrightarrow> k = n"
    by (auto simp add: bit_exp_iff)
  have "fst (fold (unpackBit c) [0..<Suc n] (v, off))
        = (if stream_bit c (off + n) then v' OR push_bit n 1 else v')"
    using st off' by (simp add: unpackBit_eq del: unpackBit.simps)
  then show ?case
    using IH one by (auto simp add: bit_or_iff less_Suc_eq simp del: push_bit_of_1)
qed

lemma unpackCoefficient_eq:
  "unpackCoefficient c bits i (p, off) =
     (p[i := math_round (real_of_int (fst (fold (unpackBit c) [0..<bits] (0, off)) * DILITHIUM_Q)
                               / real_of_int (2 ^ bits))],
      off + bits)"
proof -
  obtain v off' where f: "fold (unpackBit c) [0..<bits] (0, off) = (v, off')"
    by (cases "fold (unpackBit c) [0..<bits] (0, off)")
  have "off' = off + bits"
    using fold_unpackBit_snd [of c bits 0 off] f by simp
  then show ?thesis
    using f by (simp add: Let_def)
qed

lemma fold_unpackCoefficient_snd:
  "snd (fold (unpackCoefficient c bits) [0..<m] (p, 0)) = m * bits"
proof (induction m)
  case 0
  show ?case by simp
next
  case (Suc m)
  obtain p' off' where st: "fold (unpackCoefficient c bits) [0..<m] (p, 0) = (p', off')"
    by (cases "fold (unpackCoefficient c bits) [0..<m] (p, 0)")
  with Suc show ?case
    by (simp add: unpackCoefficient_eq del: unpackCoefficient.simps)
qed

lemma fold_unpackCoefficient_length:
  "length (fst (fold (unpackCoefficient c bits) [0..<m] (p, 0))) = length p"
proof (induction m)
  case 0
  show ?case by simp
next
  case (Suc m)
  obtain p' off' where st: "fold (unpackCoefficient c bits) [0..<m] (p, 0) = (p', off')"
    by (cases "fold (unpackCoefficient c bits) [0..<m] (p, 0)")
  with Suc show ?case
    by (simp add: unpackCoefficient_eq del: unpackCoefficient.simps)
qed

lemma fold_unpackCoefficient_nth:
  "i < m \<Longrightarrow> m \<le> length p \<Longrightarrow>
   fst (fold (unpackCoefficient c bits) [0..<m] (p, 0)) ! i
     = math_round (real_of_int (unpacked_value c bits i * DILITHIUM_Q) / real_of_int (2 ^ bits))"
proof (induction m)
  case 0
  then show ?case by simp
next
  case (Suc m)
  obtain p' off' where st: "fold (unpackCoefficient c bits) [0..<m] (p, 0) = (p', off')"
    by (cases "fold (unpackCoefficient c bits) [0..<m] (p, 0)")
  have off': "off' = m * bits"
    using fold_unpackCoefficient_snd [of c bits m p] st by simp
  have len: "length p' = length p"
    using fold_unpackCoefficient_length [of c bits m p] st by simp
  have step: "fst (fold (unpackCoefficient c bits) [0..<Suc m] (p, 0))
      = p'[m := math_round (real_of_int (unpacked_value c bits m * DILITHIUM_Q)
                            / real_of_int (2 ^ bits))]"
    using st off'
    by (simp add: unpackCoefficient_eq unpacked_value_def del: unpackCoefficient.simps)
  show ?case
  proof (cases "i = m")
    case True
    with Suc.prems len show ?thesis
      unfolding step by simp
  next
    case False
    with Suc.prems have "i < m" "m \<le> length p" by simp_all
    from Suc.IH [OF this] False st show ?thesis
      unfolding step by simp
  qed
qed

lemma compressed_length: "nat \<lceil>real (256 * bits) / 8\<rceil> = 32 * bits"
proof -
  have "real (256 * bits) / 8 = real (32 * bits)" by simp
  then show ?thesis by (simp only: ceiling_of_nat nat_int)
qed

lemma stream_bit_replicate_zero: "\<not> stream_bit (replicate n 0) j"
  by (simp add: stream_bit_def)

lemma compress_bits:
  "stream_bit (compressPolynomial poly bits) j
   \<longleftrightarrow> j < 256 * bits \<and> bit (quantize poly bits (j div bits)) (j mod bits)"
proof -
  have "j < 256 * bits \<Longrightarrow> j div 8 < 32 * bits"
    by (simp add: less_mult_imp_div_less)
  then show ?thesis
    unfolding compressPolynomial_def Let_def compressed_length
    by (auto simp add: fold_packCoefficient_bits stream_bit_replicate_zero)
qed

lemma unpacked_value_compress:
  assumes "i < 256"
  shows "unpacked_value (compressPolynomial poly bits) bits i = take_bit bits (quantize poly bits i)"
proof (rule bit_eqI)
  fix k
  show "bit (unpacked_value (compressPolynomial poly bits) bits i) k
        \<longleftrightarrow> bit (take_bit bits (quantize poly bits i)) k"
  proof (cases "k < bits")
    case False
    then show ?thesis
      by (simp add: unpacked_value_def fold_unpackBit_bits bit_take_bit_iff)
  next
    case True
    then have dm: "(i * bits + k) div bits = i" "(i * bits + k) mod bits = k"
      by simp_all
    have "i * bits + k < 256 * bits"
    proof -
      have "i * bits + k < i * bits + bits" using True by simp
      also have "\<dots> = Suc i * bits" by simp
      also have "\<dots> \<le> 256 * bits" using assms by (intro mult_le_mono1) simp
      finally show ?thesis .
    qed
    then show ?thesis
      using True by (simp add: unpacked_value_def fold_unpackBit_bits bit_take_bit_iff compress_bits dm)
  qed
qed

lemma decompress_length: "length (decompressPolynomial c bits) = 256"
  by (simp add: decompressPolynomial_def fold_unpackCoefficient_length)

lemma decompress_compress_nth:
  assumes "i < 256"
  shows "decompressPolynomial (compressPolynomial poly bits) bits ! i
     = math_round (real_of_int (take_bit bits (quantize poly bits i) * DILITHIUM_Q)
                   / real_of_int (2 ^ bits))"
  using assms
  by (simp add: decompressPolynomial_def fold_unpackCoefficient_nth unpacked_value_compress)

lemma math_round_div:
  assumes "0 < b"
  shows "math_round (real_of_int a / real_of_int b) = (2 * a + b) div (2 * b)"
proof -
  have "real_of_int a / real_of_int b + 1 / 2 = real_of_int (2 * a + b) / real_of_int (2 * b)"
    using assms by (simp add: field_simps)
  then show ?thesis
    unfolding math_round_def by (simp only: floor_divide_of_int_eq)
qed

lemma js_remainder_nonneg: "0 \<le> a \<Longrightarrow> 0 < b \<Longrightarrow> js_remainder a b = a mod b"
  by (cases "a = 0") (simp_all add: js_remainder_def)

lemma quantize_eq:
  assumes "i < length poly" "0 \<le> poly ! i"
  shows "quantize poly bits i
         = ((2 * (poly ! i * 2 ^ bits) + DILITHIUM_Q) div (2 * DILITHIUM_Q)) mod 2 ^ bits"
proof -
  have q: "0 < DILITHIUM_Q" by (simp add: DILITHIUM_Q_def)
  have "0 \<le> 2 * (poly ! i * 2 ^ bits) + DILITHIUM_Q"
    using assms(2) q by simp
  then have nonneg: "0 \<le> (2 * (poly ! i * 2 ^ bits) + DILITHIUM_Q) div (2 * DILITHIUM_Q)"
    using q by (simp add: pos_imp_zdiv_nonneg_iff)
  have "quantize poly bits i
        = js_remainder (math_round (real_of_int (poly ! i * 2 ^ bits) / real_of_int DILITHIUM_Q))
            (2 ^ bits)"
    using assms(1) by (simp only: quantize_def Let_def if_True)
  also have "\<dots> = js_remainder ((2 * (poly ! i * 2 ^ bits) + DILITHIUM_Q) div (2 * DILITHIUM_Q))
            (2 ^ bits)"
    by (simp only: math_round_div [OF q])
  also have "\<dots> = ((2 * (poly ! i * 2 ^ bits) + DILITHIUM_Q) div (2 * DILITHIUM_Q)) mod 2 ^ bits"
    using nonneg by (intro js_remainder_nonneg) simp_all
  finally show ?thesis .
qed

lemma div_bounds:
  fixes a b :: int
  assumes "0 < b"
  shows "b * (a div b) \<le> a" and "a < b * (a div b) + b"
proof -
  have "b * (a div b) = a - a mod b"
    by (simp add: minus_mod_eq_mult_div)
  with pos_mod_sign [OF assms, of a] pos_mod_bound [OF assms, of a]
  show "b * (a div b) \<le> a" and "a < b * (a div b) + b"
    by linarith+
qed

lemma roundtrip_bound:
  fixes x r :: int
  assumes x: "0 \<le> x" "x < 8380417" and r: "0 < r"
  defines "u \<equiv> (2 * (x * r) + 8380417) div (2 * 8380417)"
  defines "v \<equiv> u mod r"
  defines "y \<equiv> (2 * (v * 8380417) + r) div (2 * r)"
  shows "2 * r * min \<bar>x - y\<bar> (8380417 - \<bar>x - y\<bar>) \<le> 8380417 + r"
proof -
  have xr: "0 \<le> x * r" "x * r \<le> 8380416 * r"
    using x r by (simp_all add: mult_right_mono)
  have u1: "2 * 8380417 * u \<le> 2 * (x * r) + 8380417"
    unfolding u_def by (rule div_bounds) simp
  have u2: "2 * (x * r) + 8380417 < 2 * 8380417 * u + 2 * 8380417"
    unfolding u_def by (rule div_bounds) simp
  have u0: "0 \<le> u" using xr u2 by linarith
  have ur: "u \<le> r" using xr u1 r by linarith
  have y1: "2 * r * y \<le> 2 * (v * 8380417) + r"
    unfolding y_def using r by (intro div_bounds) simp
  have y2: "2 * (v * 8380417) + r < 2 * r * y + 2 * r"
    unfolding y_def using r by (intro div_bounds) simp
  show ?thesis
  proof (cases "u = r")
    case True
    then have v: "v = 0" by (simp add: v_def)
    then have "y = 0" using r by (simp add: y_def)
    then have d: "\<bar>x - y\<bar> = x" using x by simp
    have "2 * r * (8380417 - x) \<le> 8380417"
      using u1 True by (simp add: algebra_simps)
    moreover have "min x (8380417 - x) \<le> 8380417 - x" by simp
    then have "2 * r * min x (8380417 - x) \<le> 2 * r * (8380417 - x)"
      using r by (intro mult_left_mono) simp_all
    ultimately show ?thesis
      unfolding d using r by linarith
  next
    case False
    with ur u0 have "u < r" by simp
    with u0 have v: "v = u" by (simp add: v_def)
    have "\<bar>2 * (x * r) - 2 * (r * y)\<bar> \<le> 8380417 + r"
      using u1 u2 y1 y2 unfolding v by (simp add: algebra_simps abs_le_iff)
    moreover have "2 * r * \<bar>x - y\<bar> = \<bar>2 * (x * r) - 2 * (r * y)\<bar>"
    proof -
      have "\<bar>2 * (x * r) - 2 * (r * y)\<bar> = \<bar>2 * r * (x - y)\<bar>"
        by (simp add: algebra_simps)
      also have "\<dots> = 2 * r * \<bar>x - y\<bar>"
        using r by (simp add: abs_mult)
      finally show ?thesis by simp
    qed
    moreover have "2 * r * min \<bar>x - y\<bar> (8380417 - \<bar>x - y\<bar>) \<le> 2 * r * \<bar>x - y\<bar>"
      using r by (intro mult_left_mono) simp_all
    ultimately show ?thesis by linarith
  qed
qed

lemma coefficient_roundtrip:
  assumes "i < 256" "i < length poly" "0 \<le> poly ! i" "poly ! i < DILITHIUM_Q"
  shows "2 * 2 ^ bits
           * cyclic_distance (poly ! i)
               (decompressPolynomial (compressPolynomial poly bits) bits ! i)
         \<le> DILITHIUM_Q + 2 ^ bits"
proof -
  let ?r = "2 ^ bits :: int"
  let ?u = "(2 * (poly ! i * ?r) + 8380417) div (2 * 8380417)"
  have r: "0 < ?r" by simp
  have q: "quantize poly bits i = ?u mod ?r"
    using quantize_eq [OF assms(2,3)] by (simp add: DILITHIUM_Q_def)
  have t: "take_bit bits (quantize poly bits i) = ?u mod ?r"
    unfolding q by (simp add: take_bit_eq_mod)
  have "decompressPolynomial (compressPolynomial poly bits) bits ! i
        = math_round (real_of_int ((?u mod ?r) * DILITHIUM_Q) / real_of_int ?r)"
    using decompress_compress_nth [OF assms(1), of poly bits] by (simp only: t)
  also have "\<dots> = (2 * ((?u mod ?r) * DILITHIUM_Q) + ?r) div (2 * ?r)"
    by (rule math_round_div [OF r])
  finally have y: "decompressPolynomial (compressPolynomial poly bits) bits ! i
        = (2 * ((?u mod ?r) * 8380417) + ?r) div (2 * ?r)"
    by (simp only: DILITHIUM_Q_def)
  have x: "poly ! i < 8380417"
    using assms(4) by (simp only: DILITHIUM_Q_def)
  have "2 * ?r * min \<bar>poly ! i - (2 * ((?u mod ?r) * 8380417) + ?r) div (2 * ?r)\<bar>
                  (8380417 - \<bar>poly ! i - (2 * ((?u mod ?r) * 8380417) + ?r) div (2 * ?r)\<bar>)
        \<le> 8380417 + ?r"
    by (rule roundtrip_bound [OF assms(3) x r])
  then show ?thesis
    by (simp only: cyclic_distance_def DILITHIUM_Q_def y)
qed

text \<open>
  Claim C8 does not hold as an absolute difference. With one bit per coefficient the
  coefficient \<open>q - 1 = 8380416\<close> is quantised to \<open>2 % 2 = 0\<close> and comes back as 0,
  further than \<open>q / 4\<close> from where it started. With 13 bits the coefficient 4189697
  is quantised to 4096 and comes back as 4190209, at distance 512 where
  \<open>q / 2\<^bsup>14\<^esup>\<close> is below 511.51.
\<close>

theorem compress_error_exceeds_bound:
  "decompressPolynomial (compressPolynomial (replicate 256 8380416) 1) 1 ! 0 = 0
   \<and> \<not> real_of_int \<bar>8380416 - 0\<bar> \<le> real_of_int DILITHIUM_Q / 2 ^ (1 + 1)
   \<and> decompressPolynomial (compressPolynomial (replicate 256 4189697) 13) 13 ! 0 = 4190209
   \<and> \<not> real_of_int \<bar>4189697 - 4190209\<bar> \<le> real_of_int DILITHIUM_Q / 2 ^ (13 + 1)"
proof -
  have a: "take_bit 1 (quantize (replicate 256 8380416) 1 0) = 0"
    by (simp add: quantize_eq DILITHIUM_Q_def take_bit_eq_mod)
  have b: "take_bit 13 (quantize (replicate 256 4189697) 13 0) = 4096"
    by (simp add: quantize_eq DILITHIUM_Q_def take_bit_eq_mod)
  have "decompressPolynomial (compressPolynomial (replicate 256 8380416) 1) 1 ! 0
        = math_round (real_of_int (0 * DILITHIUM_Q) / real_of_int (2 ^ 1))"
    using decompress_compress_nth [of 0 "replicate 256 8380416" 1] by (simp only: a)
  then have y1: "decompressPolynomial (compressPolynomial (replicate 256 8380416) 1) 1 ! 0 = 0"
    by (simp add: math_round_def)
  have "decompressPolynomial (compressPolynomial (replicate 256 4189697) 13) 13 ! 0
        = math_round (real_of_int (4096 * DILITHIUM_Q) / real_of_int (2 ^ 13))"
    using decompress_compress_nth [of 0 "replicate 256 4189697" 13] by (simp only: b)
  also have "\<dots> = (2 * (4096 * DILITHIUM_Q) + 2 ^ 13) div (2 * 2 ^ 13)"
    by (rule math_round_div) simp
  also have "\<dots> = 4190209"
    by (simp add: DILITHIUM_Q_def)
  finally have y2: "decompressPolynomial (compressPolynomial (replicate 256 4189697) 13) 13 ! 0
        = 4190209" .
  show ?thesis
    unfolding y1 y2 by (simp add: DILITHIUM_Q_def)
qed

text \<open>
  Claim C8, as the code has it. For every polynomial of 256 coefficients in \<open>[0, q)\<close>
  and every width of at most 30 bits, decompressing the compressed polynomial gives 256
  coefficients, each at a distance of at most \<open>q / 2\<^bsup>bits+1\<^esup> + 1/2\<close> from the
  coefficient it comes from, the distance taken around the cycle of residues modulo
  \<open>q\<close>: the top of the range wraps to 0 under \<^verbatim>\<open>% range\<close>, and the second
  rounding adds up to a half.
\<close>

theorem compress_roundtrip_error:
  assumes "length x = 256" and "\<forall>i<256. 0 \<le> x ! i \<and> x ! i < DILITHIUM_Q" and "bits \<le> 30"
  shows "length (decompressPolynomial (compressPolynomial x bits) bits) = 256
         \<and> (\<forall>i<256. real_of_int (cyclic_distance (x ! i)
                         (decompressPolynomial (compressPolynomial x bits) bits ! i))
                      \<le> real_of_int DILITHIUM_Q / 2 ^ (bits + 1) + 1 / 2)"
proof (intro conjI allI impI)
  show "length (decompressPolynomial (compressPolynomial x bits) bits) = 256"
    by (rule decompress_length)
next
  fix i :: nat
  assume i: "i < 256"
  let ?d = "cyclic_distance (x ! i) (decompressPolynomial (compressPolynomial x bits) bits ! i)"
  have "2 * 2 ^ bits * ?d \<le> DILITHIUM_Q + 2 ^ bits"
    using coefficient_roundtrip [of i x bits] i assms(1,2) by simp
  then have "real_of_int (2 * 2 ^ bits * ?d) \<le> real_of_int (DILITHIUM_Q + 2 ^ bits)"
    by (simp only: of_int_le_iff)
  then have "2 * 2 ^ bits * real_of_int ?d \<le> real_of_int DILITHIUM_Q + 2 ^ bits"
    by simp
  then show "real_of_int ?d \<le> real_of_int DILITHIUM_Q / 2 ^ (bits + 1) + 1 / 2"
    by (simp add: field_simps)
qed

text \<open>
  The polynomial of 256 coefficients \<open>q - 1\<close> meets the hypotheses; with one bit per
  coefficient its first coefficient comes back within the bound.
\<close>

theorem compress_roundtrip_error_witness:
  "real_of_int (cyclic_distance 8380416
      (decompressPolynomial (compressPolynomial (replicate 256 8380416) 1) 1 ! 0))
   \<le> real_of_int DILITHIUM_Q / 2 ^ (1 + 1) + 1 / 2"
proof -
  have h1: "length (replicate 256 (8380416::int)) = 256"
    by simp
  have h2: "\<forall>i<256. 0 \<le> replicate 256 (8380416::int) ! i
                   \<and> replicate 256 (8380416::int) ! i < DILITHIUM_Q"
    by (simp add: DILITHIUM_Q_def)
  have h3: "(1::nat) \<le> 30"
    by simp
  have h0: "(0::nat) < 256"
    by simp
  from compress_roundtrip_error [OF h1 h2 h3, THEN conjunct2, rule_format, OF h0]
  have "real_of_int (cyclic_distance (replicate 256 8380416 ! 0)
          (decompressPolynomial (compressPolynomial (replicate 256 8380416) 1) 1 ! 0))
        \<le> real_of_int DILITHIUM_Q / 2 ^ (1 + 1) + 1 / 2" .
  then show ?thesis
    by simp
qed

end
